theory Spec2Isabelle
  imports
    Complex_Main
    "HOL-Library.Sublist"
    "HOL-Library.AList"
    "HOL-Library.Multiset"
    "HOL-Library.Log_Nat"
    "HOL-Library.Char_ord"
    "HOL-Library.List_Lexorder"
begin

section \<open>Case-Tracker: calendar editor and document repository\<close>

text \<open>
  A shallow embedding of the decision logic of the Case-Tracker front end: the
  appointment editor (AppointmentForm), the calendar view (CalendarView.tsx), the
  document store (DocumentContex.tsx), the upload flow (DocumentUpload.tsx), the
  document list (DocumentList.tsx) and the preview's zoom (DocumentPreview.tsx).

  Conventions. A React state cell is a field of a state record, and an event handler is
  a function from the state before the event to the state after it. A JavaScript string
  is a \<open>string\<close>, read as a sequence of code units below 256. An optional
  property is an \<open>option\<close>. A \<open>Date\<close> is its time value in milliseconds, with
  \<open>None\<close> for an Invalid Date (time value NaN).
\<close>

subsection \<open>Document store (DocumentContex.tsx)\<close>

record Document =
  doc_id :: string
  name :: string
  doc_type :: string
  uploadDate :: string
  uploader :: string
  tags :: "string list option"
  clientCase :: "string option"
  fileUrl :: string
  fileSize :: "nat option"

text \<open>The two state cells of \<open>DocumentProvider\<close>.\<close>

record DocumentStore =
  documents :: "Document list"
  selectedDocument :: "Document option"

definition mockDocuments :: "Document list" where
  "mockDocuments =
     [\<lparr>doc_id = ''1'', name = ''Client Agreement - Smith v. Jones'', doc_type = ''pdf'',
        uploadDate = ''2024-10-15'', uploader = ''John Doe'',
        tags = Some [''Contract'', ''Client''], clientCase = Some ''Smith v. Jones'',
        fileUrl = ''/mock/agreement.pdf'', fileSize = Some 245000\<rparr>,
      \<lparr>doc_id = ''2'', name = ''Evidence Photo - Crime Scene'', doc_type = ''image'',
        uploadDate = ''2024-10-20'', uploader = ''Jane Smith'',
        tags = Some [''Evidence'', ''Criminal''], clientCase = Some ''State v. Brown'',
        fileUrl = ''https://via.placeholder.com/800x600/4A90E2/ffffff?text=Evidence+Photo'',
        fileSize = Some 1024000\<rparr>,
      \<lparr>doc_id = ''3'', name = ''Motion to Dismiss - Case #2024-456'', doc_type = ''pdf'',
        uploadDate = ''2024-10-25'', uploader = ''John Doe'',
        tags = Some [''Motion'', ''Court Filing''], clientCase = Some ''Johnson Estate'',
        fileUrl = ''/mock/motion.pdf'', fileSize = Some 512000\<rparr>,
      \<lparr>doc_id = ''4'', name = ''Witness Statement - Dr. Williams'', doc_type = ''pdf'',
        uploadDate = ''2024-10-28'', uploader = ''Sarah Johnson'',
        tags = Some [''Witness'', ''Deposition''], clientCase = Some ''Medical Malpractice #789'',
        fileUrl = ''/mock/statement.pdf'', fileSize = Some 328000\<rparr>]"

text \<open>The store as \<open>DocumentProvider\<close> initialises it.\<close>

definition initialStore :: DocumentStore where
  "initialStore = \<lparr>documents = mockDocuments, selectedDocument = None\<rparr>"


text \<open>
  \<open>selectedDocument?.id === id\<close> is false when nothing is selected: \<open>undefined\<close> is
  not strictly equal to a string.
\<close>

definition selected_has_id :: "Document option \<Rightarrow> string \<Rightarrow> bool" where
  "selected_has_id sel i = (case sel of None \<Rightarrow> False | Some d \<Rightarrow> doc_id d = i)"

definition deleteDocument :: "string \<Rightarrow> DocumentStore \<Rightarrow> DocumentStore" where
  "deleteDocument i s =
     s\<lparr>documents := filter (\<lambda>doc. doc_id doc \<noteq> i) (documents s),
       selectedDocument :=
         (if selected_has_id (selectedDocument s) i then None else selectedDocument s)\<rparr>"

definition setSelectedDocument :: "Document option \<Rightarrow> DocumentStore \<Rightarrow> DocumentStore" where
  "setSelectedDocument document s = s\<lparr>selectedDocument := document\<rparr>"

text \<open>
  \<open>useContext\<close> yields the value of the nearest enclosing provider, and the default of
  \<open>createContext\<close>, here \<open>undefined\<close>, when there is none. The scope is the list of the
  values that the enclosing \<open>DocumentProvider\<close>s supply, nearest first; a
  \<open>DocumentProvider\<close> always supplies an object.
\<close>

definition useContext :: "'c list \<Rightarrow> 'c option" where
  "useContext providers = (case providers of [] \<Rightarrow> None | v # _ \<Rightarrow> Some v)"

datatype error = Error string

definition useDocuments :: "'c list \<Rightarrow> error + 'c" where
  "useDocuments providers =
     (case useContext providers of
        None \<Rightarrow> Inl (Error ''useDocuments must be used within a DocumentProvider'')
      | Some context \<Rightarrow> Inr context)"

subsection \<open>Document list: sort state (DocumentList.tsx)\<close>

datatype SortKey = SortName | SortDate | SortUploader

datatype SortOrder = Asc | Desc

definition handleSort :: "SortKey \<Rightarrow> SortKey \<times> SortOrder \<Rightarrow> SortKey \<times> SortOrder" where
  "handleSort field st =
     (case st of (sortBy, sortOrder) \<Rightarrow>
        if sortBy = field then (sortBy, if sortOrder = Asc then Desc else Asc)
        else (field, Asc))"


subsection \<open>JavaScript strings\<close>

text \<open>
  \<open>String.prototype.trim\<close> removes white space and line terminators from both ends;
  below 256 these are the code units 9 to 13, 32 and 160.
\<close>

definition is_whitespace :: "char \<Rightarrow> bool" where
  "is_whitespace c =
     (let n = (of_char c :: nat) in (9 \<le> n \<and> n \<le> 13) \<or> n = 32 \<or> n = 160)"

definition trim :: "string \<Rightarrow> string" where
  "trim s = rev (dropWhile is_whitespace (rev (dropWhile is_whitespace s)))"

text \<open>
  \<open>toLowerCase\<close> below 256: the letters A to Z and the Latin-1 capitals 192 to 222
  (without the multiplication sign 215) move up by 32.
\<close>

definition lower_char :: "char \<Rightarrow> char" where
  "lower_char c =
     (let n = (of_char c :: nat)
      in if (65 \<le> n \<and> n \<le> 90) \<or> (192 \<le> n \<and> n \<le> 222 \<and> n \<noteq> 215)
         then char_of (n + 32) else c)"

definition toLowerCase :: "string \<Rightarrow> string" where
  "toLowerCase s = map lower_char s"

text \<open>\<open>s.includes(t)\<close>: \<open>t\<close> occurs in \<open>s\<close> as a contiguous run.\<close>

fun str_includes :: "string \<Rightarrow> string \<Rightarrow> bool" where
  "str_includes [] t = (t = [])"
| "str_includes (c # cs) t = (prefix t (c # cs) \<or> str_includes cs t)"

text \<open>
  \<open>s.split(sep)\<close> for a separator of one code unit: one piece more than there are
  separators, so the empty string gives one empty piece.
\<close>

fun split :: "char \<Rightarrow> string \<Rightarrow> string list" where
  "split sep [] = [[]]"
| "split sep (c # cs) =
     (let r = split sep cs in if c = sep then [] # r else (c # hd r) # tl r)"

text \<open>
  An integer in a template literal is written in decimal, with a minus sign when
  negative (the exponent notation starts at \<open>10^21\<close>, far above any clock value).
\<close>

fun digits :: "nat \<Rightarrow> string" where
  "digits n =
     (if n < 10 then [''0123456789'' ! n] else digits (n div 10) @ [''0123456789'' ! (n mod 10)])"

definition number_to_string :: "int \<Rightarrow> string" where
  "number_to_string i = (if i < 0 then CHR ''-'' # digits (nat (- i)) else digits (nat i))"

subsection \<open>Appointments (CalendarView.tsx)\<close>

text \<open>
  A \<open>Date\<close> is its time value; \<open>None\<close> is the Invalid Date, whose time value is NaN.
  The relational operators compare the time values, and every comparison with NaN is
  false.
\<close>

type_synonym Date = "int option"

definition date_ge :: "Date \<Rightarrow> Date \<Rightarrow> bool" where
  "date_ge a b = (case a of None \<Rightarrow> False | Some x \<Rightarrow> (case b of None \<Rightarrow> False | Some y \<Rightarrow> y \<le> x))"

definition date_gt :: "Date \<Rightarrow> Date \<Rightarrow> bool" where
  "date_gt a b = (case a of None \<Rightarrow> False | Some x \<Rightarrow> (case b of None \<Rightarrow> False | Some y \<Rightarrow> y < x))"

text \<open>
  \<open>Omit<Appointment, 'id'>\<close>, the type of the editor's draft, and \<open>Appointment\<close>, which
  adds the id. The string unions \<open>type\<close> and \<open>reminder\<close> are kept as the strings they
  are at run time.
\<close>

record FormData =
  title :: string
  start :: Date
  end' :: Date
  type' :: string
  client :: "string option"
  caseReference :: "string option"
  location :: "string option"
  notes' :: "string option"
  reminder :: "string option"

record Appointment = FormData +
  id' :: string

text \<open>The state cells of \<open>CalendarView\<close> that the handlers write (not the grid's view and date).\<close>

record CalendarState =
  appointments :: "Appointment list"
  selectedAppointment :: "Appointment option"
  selectedSlot :: "(Date \<times> Date) option"
  showModal :: bool

definition handleSelectSlot :: "Date \<times> Date \<Rightarrow> CalendarState \<Rightarrow> CalendarState" where
  "handleSelectSlot slotInfo s =
     s\<lparr>selectedSlot := Some slotInfo, selectedAppointment := None, showModal := True\<rparr>"

definition handleSelectEvent :: "Appointment \<Rightarrow> CalendarState \<Rightarrow> CalendarState" where
  "handleSelectEvent event s =
     s\<lparr>selectedAppointment := Some event, selectedSlot := None, showModal := True\<rparr>"

definition handleSaveAppointment :: "Appointment \<Rightarrow> CalendarState \<Rightarrow> CalendarState" where
  "handleSaveAppointment appointment s =
     s\<lparr>appointments :=
         (if selectedAppointment s \<noteq> None
          then map (\<lambda>apt. if id' apt = id' appointment then appointment else apt) (appointments s)
          else appointments s @ [appointment]),
       showModal := False, selectedAppointment := None, selectedSlot := None\<rparr>"

definition handleDeleteAppointment :: "string \<Rightarrow> CalendarState \<Rightarrow> CalendarState" where
  "handleDeleteAppointment i s =
     s\<lparr>appointments := filter (\<lambda>apt. id' apt \<noteq> i) (appointments s),
       showModal := False, selectedAppointment := None\<rparr>"

definition handleCloseModal :: "CalendarState \<Rightarrow> CalendarState" where
  "handleCloseModal s = s\<lparr>showModal := False, selectedAppointment := None, selectedSlot := None\<rparr>"

subsection \<open>Appointment editor (AppointmentForm)\<close>

text \<open>
  The errors object \<open>{ [key: string]: string }\<close> is an association list in insertion
  order; \<open>errors[name]\<close> is \<open>map_of\<close>, an assignment is \<open>AList.update\<close>. A value
  is truthy when it is present and not the empty string.
\<close>

type_synonym Errors = "(string \<times> string) list"

definition truthy :: "string option \<Rightarrow> bool" where
  "truthy v = (case v of None \<Rightarrow> False | Some m \<Rightarrow> m \<noteq> [])"

record EditorState =
  formData :: FormData
  errors :: Errors

text \<open>\<open>useState\<close>'s initial draft, with the time of mounting for both dates.\<close>

definition initialFormData :: "Date \<Rightarrow> FormData" where
  "initialFormData today =
     \<lparr>title = [], start = today, end' = today, type' = ''appointment'', client = Some [],
      caseReference = Some [], location = Some [], notes' = Some [], reminder = Some ''1hour''\<rparr>"

definition or_else :: "string option \<Rightarrow> string \<Rightarrow> string" where
  "or_else v d = (if truthy v then the v else d)"

text \<open>The effect that seeds the draft from the record being edited or from the slot.\<close>

definition seedFormData ::
  "Appointment option \<Rightarrow> (Date \<times> Date) option \<Rightarrow> FormData \<Rightarrow> FormData" where
  "seedFormData appointment initialSlot prev =
     (case appointment of
        Some a \<Rightarrow>
          \<lparr>title = title a, start = start a, end' = end' a, type' = type' a,
           client = Some (or_else (client a) []),
           caseReference = Some (or_else (caseReference a) []),
           location = Some (or_else (location a) []),
           notes' = Some (or_else (notes' a) []),
           reminder = Some (or_else (reminder a) ''1hour'')\<rparr>
      | None \<Rightarrow>
          (case initialSlot of
             Some slot \<Rightarrow> prev\<lparr>start := fst slot, end' := snd slot\<rparr>
           | None \<Rightarrow> prev))"

text \<open>
  \<open>[name]: value\<close> on the draft, for the names the form's inputs carry. \<open>parseDate\<close>
  stands for \<open>new Date(value)\<close> on the text of a datetime-local input.
\<close>

definition set_field :: "(string \<Rightarrow> Date) \<Rightarrow> string \<Rightarrow> string \<Rightarrow> FormData \<Rightarrow> FormData" where
  "set_field parseDate nm v fd =
     (if nm = ''start'' then fd\<lparr>start := parseDate v\<rparr>
      else if nm = ''end'' then fd\<lparr>end' := parseDate v\<rparr>
      else if nm = ''title'' then fd\<lparr>title := v\<rparr>
      else if nm = ''type'' then fd\<lparr>type' := v\<rparr>
      else if nm = ''client'' then fd\<lparr>client := Some v\<rparr>
      else if nm = ''caseReference'' then fd\<lparr>caseReference := Some v\<rparr>
      else if nm = ''location'' then fd\<lparr>location := Some v\<rparr>
      else if nm = ''notes'' then fd\<lparr>notes' := Some v\<rparr>
      else if nm = ''reminder'' then fd\<lparr>reminder := Some v\<rparr>
      else fd)"

definition handleInputChange ::
  "(string \<Rightarrow> Date) \<Rightarrow> string \<Rightarrow> string \<Rightarrow> EditorState \<Rightarrow> EditorState" where
  "handleInputChange parseDate nm v st =
     \<lparr>formData = set_field parseDate nm v (formData st),
      errors = (if truthy (map_of (errors st) nm) then AList.update nm [] (errors st)
                else errors st)\<rparr>"

text \<open>\<open>validate\<close> builds a fresh errors object, stores it and tells whether it has no key.\<close>

definition validate :: "FormData \<Rightarrow> Errors \<times> bool" where
  "validate fd =
     (let newErrors = [];
          newErrors = (if trim (title fd) = [] then AList.update ''title'' ''Title is required'' newErrors
                       else newErrors);
          newErrors = (if date_ge (start fd) (end' fd)
                       then AList.update ''end'' ''End time must be after start time'' newErrors
                       else newErrors)
      in (newErrors, length (map fst newErrors) = 0))"

definition appointmentToSave :: "Appointment option \<Rightarrow> int \<Rightarrow> FormData \<Rightarrow> Appointment" where
  "appointmentToSave appointment now fd =
     FormData.extend fd
       (Appointment.fields
          (case appointment of
             None \<Rightarrow> ''apt-'' @ number_to_string now
           | Some a \<Rightarrow> if id' a \<noteq> [] then id' a else ''apt-'' @ number_to_string now))"

text \<open>
  \<open>handleSubmit\<close>: the state after the submit, and the records that \<open>onSave\<close> was called
  with, in order. \<open>now\<close> is the clock reading \<open>Date.now()\<close>.
\<close>

definition handleSubmit ::
  "Appointment option \<Rightarrow> int \<Rightarrow> EditorState \<Rightarrow> EditorState \<times> Appointment list" where
  "handleSubmit appointment now st =
     (case validate (formData st) of
        (newErrors, ok) \<Rightarrow>
          if \<not> ok then (st\<lparr>errors := newErrors\<rparr>, [])
          else (st\<lparr>errors := newErrors\<rparr>, [appointmentToSave appointment now (formData st)]))"


subsection \<open>Document list: derived view (DocumentList.tsx)\<close>

definition matchesSearch :: "string \<Rightarrow> Document \<Rightarrow> bool" where
  "matchesSearch searchTerm doc =
     (str_includes (toLowerCase (name doc)) (toLowerCase searchTerm)
      \<or> str_includes (toLowerCase (uploader doc)) (toLowerCase searchTerm)
      \<or> (case clientCase doc of
            None \<Rightarrow> False
          | Some c \<Rightarrow> str_includes (toLowerCase c) (toLowerCase searchTerm)))"

definition matchesType :: "string \<Rightarrow> Document \<Rightarrow> bool" where
  "matchesType filterType doc = (filterType = ''all'' \<or> doc_type doc = filterType)"

text \<open>
  The comparator handed to \<open>sort\<close>. Two functions of the platform are parameters:
  \<open>localeCompare\<close>, the collation of the host, and \<open>getTime\<close>, which stands for
  \<open>new Date(s).getTime()\<close> and is \<open>None\<close> where the string does not parse (NaN). A
  difference with NaN is NaN, here \<open>None\<close>; the difference of two time values is taken
  exactly, which has the sign of the rounded one.
\<close>

definition comparison ::
  "(string \<Rightarrow> string \<Rightarrow> int) \<Rightarrow> (string \<Rightarrow> int option) \<Rightarrow> SortKey \<Rightarrow> SortOrder
   \<Rightarrow> Document \<Rightarrow> Document \<Rightarrow> int option" where
  "comparison localeCompare getTime sortBy sortOrder a b =
     (let c = (case sortBy of
                 SortName \<Rightarrow> Some (localeCompare (name a) (name b))
               | SortDate \<Rightarrow>
                   (case getTime (uploadDate a) of
                      None \<Rightarrow> None
                    | Some x \<Rightarrow>
                        (case getTime (uploadDate b) of None \<Rightarrow> None | Some y \<Rightarrow> Some (x - y)))
               | SortUploader \<Rightarrow> Some (localeCompare (uploader a) (uploader b)))
      in if sortOrder = Asc then c else map_option uminus c)"

text \<open>
  \<open>Array.prototype.sort\<close> is stable, and moves \<open>a\<close> behind \<open>b\<close> only where the
  comparator is positive (NaN counts as zero). With a consistent comparator its result is
  the stably sorted list, whatever the engine's algorithm; the model inserts each element,
  from the right, before the first element it does not have to follow.
\<close>

definition positive :: "int option \<Rightarrow> bool" where
  "positive v = (case v of None \<Rightarrow> False | Some n \<Rightarrow> 0 < n)"

fun insert_by :: "('a \<Rightarrow> 'a \<Rightarrow> int option) \<Rightarrow> 'a \<Rightarrow> 'a list \<Rightarrow> 'a list" where
  "insert_by cmp x [] = [x]"
| "insert_by cmp x (y # ys) =
     (if positive (cmp x y) then y # insert_by cmp x ys else x # y # ys)"

definition sort_by :: "('a \<Rightarrow> 'a \<Rightarrow> int option) \<Rightarrow> 'a list \<Rightarrow> 'a list" where
  "sort_by cmp xs = foldr (insert_by cmp) xs []"

definition filteredDocuments ::
  "(string \<Rightarrow> string \<Rightarrow> int) \<Rightarrow> (string \<Rightarrow> int option) \<Rightarrow> Document list \<Rightarrow> string
   \<Rightarrow> SortKey \<Rightarrow> SortOrder \<Rightarrow> string \<Rightarrow> Document list" where
  "filteredDocuments localeCompare getTime docs searchTerm sortBy sortOrder filterType =
     sort_by (comparison localeCompare getTime sortBy sortOrder)
       (filter (\<lambda>doc. matchesSearch searchTerm doc \<and> matchesType filterType doc) docs)"

text \<open>
  The derivation with the type filter alone, against which the derivation with an empty
  search term is compared.
\<close>

definition typeFilteredDocuments ::
  "(string \<Rightarrow> string \<Rightarrow> int) \<Rightarrow> (string \<Rightarrow> int option) \<Rightarrow> Document list
   \<Rightarrow> SortKey \<Rightarrow> SortOrder \<Rightarrow> string \<Rightarrow> Document list" where
  "typeFilteredDocuments localeCompare getTime docs sortBy sortOrder filterType =
     sort_by (comparison localeCompare getTime sortBy sortOrder)
       (filter (\<lambda>doc. filterType = ''all'' \<or> doc_type doc = filterType) docs)"

text \<open>
  What is asked of the host's collation: the sign of \<open>localeCompare a b\<close> is the
  opposite of that of \<open>localeCompare b a\<close>, and "not after" is transitive.
\<close>

definition consistent_comparator :: "(string \<Rightarrow> string \<Rightarrow> int) \<Rightarrow> bool" where
  "consistent_comparator lc =
     ((\<forall>a b. (lc a b < 0) = (0 < lc b a))
      \<and> (\<forall>a b c. lc a b \<le> 0 \<and> lc b c \<le> 0 \<longrightarrow> lc a c \<le> 0))"

text \<open>
  The order the list is to have: \<open>a\<close> may stand before \<open>b\<close> under the key and the
  direction.
\<close>

definition key_le ::
  "(string \<Rightarrow> string \<Rightarrow> int) \<Rightarrow> (string \<Rightarrow> int option) \<Rightarrow> SortKey \<Rightarrow> Document \<Rightarrow> Document \<Rightarrow> bool" where
  "key_le lc gt sortBy a b =
     (case sortBy of
        SortName \<Rightarrow> lc (name a) (name b) \<le> 0
      | SortDate \<Rightarrow>
          (case gt (uploadDate a) of
             None \<Rightarrow> False
           | Some x \<Rightarrow> (case gt (uploadDate b) of None \<Rightarrow> False | Some y \<Rightarrow> x \<le> y))
      | SortUploader \<Rightarrow> lc (uploader a) (uploader b) \<le> 0)"

definition in_order ::
  "(string \<Rightarrow> string \<Rightarrow> int) \<Rightarrow> (string \<Rightarrow> int option) \<Rightarrow> SortKey \<Rightarrow> SortOrder
   \<Rightarrow> Document \<Rightarrow> Document \<Rightarrow> bool" where
  "in_order lc gt sortBy sortOrder a b =
     (if sortOrder = Asc then key_le lc gt sortBy a b else key_le lc gt sortBy b a)"

text \<open>
  One instance of the two platform functions, to run the derivation on the mock data:
  comparison by code units, and the time values of the mock upload dates.
\<close>

definition codeUnitCompare :: "string \<Rightarrow> string \<Rightarrow> int" where
  "codeUnitCompare a b = (if a < b then - 1 else if a = b then 0 else 1)"

definition mockTime :: "string \<Rightarrow> int option" where
  "mockTime =
     map_of [(''2024-10-15'', 1728950400000), (''2024-10-20'', 1729382400000),
             (''2024-10-25'', 1729814400000), (''2024-10-28'', 1730073600000)]"

subsection \<open>Upload flow (DocumentUpload.tsx)\<close>

record File =
  file_name :: string
  file_type :: string
  file_size :: nat

datatype UploadStatus = Uploading | Success | Failed


record Metadata =
  md_uploader :: string
  md_tags :: string
  md_clientCase :: string

definition initialMetadata :: Metadata where
  "initialMetadata = \<lparr>md_uploader = ''Current User'', md_tags = [], md_clientCase = []\<rparr>"

definition fileType :: "File \<Rightarrow> string" where
  "fileType f =
     (if str_includes (file_type f) ''pdf'' then ''pdf''
      else if str_includes (file_type f) ''image'' then ''image'' else ''docx'')"






subsection \<open>Preview zoom (DocumentPreview.tsx)\<close>

text \<open>
  The scale is a JavaScript number, an IEEE 754 double. A finite double is the rational
  it denotes, and an arithmetic operation is the exact operation followed by rounding to
  the nearest double, ties to the even significand. \<open>binade x\<close> is the exponent \<open>e\<close>
  with \<open>2^e \<le> x < 2^(e+1)\<close>; the doubles of that binade are the multiples of
  \<open>2^(e-52)\<close>. (Exponents are not bounded: the model is that of the normal range, which
  the scale never leaves.)
\<close>

definition binade :: "rat \<Rightarrow> int" where
  "binade x =
     (case quotient_of x of (p, q) \<Rightarrow>
        let e = int (floorlog 2 (nat p)) - int (floorlog 2 (nat q))
        in if 2 powi e \<le> x then e else e - 1)"

definition round_half_even :: "rat \<Rightarrow> int" where
  "round_half_even y =
     (let f = \<lfloor>y\<rfloor>; d = y - of_int f
      in if d < 1 / 2 then f else if 1 / 2 < d then f + 1 else if even f then f else f + 1)"

definition to_double :: "rat \<Rightarrow> rat" where
  "to_double x =
     (if x = 0 then 0
      else let ulp = 2 powi (binade \<bar>x\<bar> - 52)
           in sgn x * (of_int (round_half_even (\<bar>x\<bar> / ulp)) * ulp))"

text \<open>
  \<open>useState(1.0)\<close>, and the two updaters. The literals \<open>3.0\<close> and \<open>0.5\<close> are doubles;
  \<open>0.2\<close> is not, and denotes the double nearest to it.
\<close>

definition initialScale :: rat where
  "initialScale = 1"

definition handleZoomIn :: "rat \<Rightarrow> rat" where
  "handleZoomIn prev = min (to_double (prev + to_double (2 / 10))) 3"

definition handleZoomOut :: "rat \<Rightarrow> rat" where
  "handleZoomOut prev = max (to_double (prev - to_double (2 / 10))) (1 / 2)"

datatype ZoomAction = ZoomIn | ZoomOut

fun zoom :: "ZoomAction \<Rightarrow> rat \<Rightarrow> rat" where
  "zoom ZoomIn prev = handleZoomIn prev"
| "zoom ZoomOut prev = handleZoomOut prev"

definition zoomAll :: "ZoomAction list \<Rightarrow> rat \<Rightarrow> rat" where
  "zoomAll actions scale = foldl (\<lambda>s a. zoom a s) scale actions"

subsection \<open>Concrete inputs\<close>

text \<open>
  The appointments \<open>CalendarView\<close> starts with. The source writes the dates in local
  time; the time values here are those of a host on UTC.
\<close>

definition mockAppointments :: "Appointment list" where
  "mockAppointments =
     [\<lparr>title = ''Client Consultation - Smith Case'', start = Some 1762336800000,
        end' = Some 1762340400000, type' = ''appointment'', client = Some ''John Smith'',
        caseReference = Some ''CASE-2025-001'', location = Some ''Office - Room 3A'',
        notes' = Some ''Initial consultation regarding property dispute'',
        reminder = Some ''1hour'', id' = ''1''\<rparr>,
      \<lparr>title = ''Court Hearing - Johnson v. State'', start = Some 1762610400000,
        end' = Some 1762617600000, type' = ''court-date'', client = Some ''Mary Johnson'',
        caseReference = Some ''CASE-2025-045'', location = Some ''District Court, Courtroom 5B'',
        notes' = Some ''Preliminary hearing'', reminder = Some ''1day'', id' = ''2''\<rparr>,
      \<lparr>title = ''Filing Deadline - Brown Case'', start = Some 1762966800000,
        end' = Some 1762968600000, type' = ''deadline'', client = Some ''Robert Brown'',
        caseReference = Some ''CASE-2025-023'', location = None,
        notes' = Some ''Motion to dismiss must be filed by 5:00 PM'',
        reminder = Some ''1week'', id' = ''3''\<rparr>,
      \<lparr>title = ''Document Review Meeting'', start = Some 1763197200000,
        end' = Some 1763202600000, type' = ''task'', client = None, caseReference = None,
        location = Some ''Conference Room B'',
        notes' = Some ''Review discovery documents with legal team'',
        reminder = Some ''1hour'', id' = ''4''\<rparr>]"

definition initialCalendar :: CalendarState where
  "initialCalendar =
     \<lparr>appointments = mockAppointments, selectedAppointment = None, selectedSlot = None,
      showModal = False\<rparr>"

text \<open>A slot picked on the grid, and the editor opened on it with a title typed in.\<close>

definition slotNov20 :: "Date \<times> Date" where
  "slotNov20 = (Some 1763632800000, Some 1763636400000)"

definition editorOnSlot :: "string \<Rightarrow> EditorState" where
  "editorOnSlot t =
     handleInputChange (\<lambda>v. None) ''title'' t
       \<lparr>formData = seedFormData None (Some slotNov20) (initialFormData (Some 1763000000000)),
        errors = []\<rparr>"

text \<open>
  The same editor after the user has emptied the start field: the text of the input is
  empty, and \<open>new Date\<close> of the empty string is the Invalid Date.
\<close>

definition parseCleared :: "string \<Rightarrow> Date" where
  "parseCleared v = (if v = [] then None else Some 1763632800000)"

definition editorStartCleared :: EditorState where
  "editorStartCleared = handleInputChange parseCleared ''start'' [] (editorOnSlot ''Hearing'')"

text \<open>
  Two appointments created on the same clock reading: the calendar after "Hearing" was
  saved at reading 5 and a slot was picked again, and the record the editor hands over
  for "Deposition" at the same reading.
\<close>

definition calendarSecondSlot :: CalendarState where
  "calendarSecondSlot =
     handleSelectSlot slotNov20
       (handleSaveAppointment (appointmentToSave None 5 (formData (editorOnSlot ''Hearing'')))
          (handleSelectSlot slotNov20 initialCalendar))"

definition savedDeposition :: Appointment where
  "savedDeposition = appointmentToSave None 5 (formData (editorOnSlot ''Deposition''))"

text \<open>The calendar with the second mock appointment opened in the editor, and its title edited.\<close>

definition calendarEditing :: CalendarState where
  "calendarEditing = handleSelectEvent (mockAppointments ! 1) initialCalendar"

definition savedEdit :: Appointment where
  "savedEdit =
     appointmentToSave (Some (mockAppointments ! 1)) 5
       (formData (handleInputChange (\<lambda>v. None) ''title'' ''Court Hearing - moved''
          \<lparr>formData = seedFormData (Some (mockAppointments ! 1)) None (initialFormData (Some 1763000000000)),
           errors = []\<rparr>))"





section \<open>Properties\<close>

subsection \<open>Document store\<close>

text \<open>
  C4. Deleting an id keeps exactly the records with another id, in their order. If the
  selected document has that id the selection becomes null; otherwise, also when
  nothing is selected, the selection stays as it was.
\<close>

theorem deleteDocument_selection:
  "documents (deleteDocument i s) = filter (\<lambda>d. doc_id d \<noteq> i) (documents s)
   \<and> (\<forall>d. d \<in> set (documents (deleteDocument i s)) \<longleftrightarrow> d \<in> set (documents s) \<and> doc_id d \<noteq> i)
   \<and> (\<forall>d. selectedDocument s = Some d \<and> doc_id d = i
          \<longrightarrow> selectedDocument (deleteDocument i s) = None)
   \<and> (\<forall>d. selectedDocument s = Some d \<and> doc_id d \<noteq> i
          \<longrightarrow> selectedDocument (deleteDocument i s) = Some d)
   \<and> (selectedDocument s = None \<longrightarrow> selectedDocument (deleteDocument i s) = None)"
  by (auto simp: deleteDocument_def selected_has_id_def)

theorem deleteDocument_selection_witness:
  "selectedDocument
     (deleteDocument ''2'' (setSelectedDocument (Some (mockDocuments ! 1)) initialStore)) = None
   \<and> map doc_id
       (documents (deleteDocument ''2'' (setSelectedDocument (Some (mockDocuments ! 1)) initialStore)))
     = [''1'', ''3'', ''4'']
   \<and> selectedDocument
       (deleteDocument ''3'' (setSelectedDocument (Some (mockDocuments ! 1)) initialStore))
     = Some (mockDocuments ! 1)
   \<and> selectedDocument (deleteDocument ''3'' initialStore) = None"
  using deleteDocument_selection [of "''2''" "setSelectedDocument (Some (mockDocuments ! 1)) initialStore"]
    deleteDocument_selection [of "''3''" "setSelectedDocument (Some (mockDocuments ! 1)) initialStore"]
    deleteDocument_selection [of "''3''" initialStore]
  by (simp add: setSelectedDocument_def initialStore_def mockDocuments_def)

text \<open>
  C9. Outside every provider \<open>useDocuments\<close> raises; inside one it returns the value
  of the nearest provider and does not raise.
\<close>

theorem useDocuments_guard:
  "useDocuments ([] :: 'c list)
     = Inl (Error ''useDocuments must be used within a DocumentProvider'')
   \<and> (\<forall>(v :: 'c) vs. useDocuments (v # vs) = Inr v)"
  by (simp add: useDocuments_def useContext_def)

subsection \<open>Document list\<close>

text \<open>
  C7. A click on the active sort column keeps the key and toggles the direction; a
  click on another column makes it the key and sets the direction to ascending.
\<close>

theorem handleSort_toggle:
  "(field = sortBy \<longrightarrow>
      handleSort field (sortBy, Asc) = (sortBy, Desc)
      \<and> handleSort field (sortBy, Desc) = (sortBy, Asc))
   \<and> (field \<noteq> sortBy \<longrightarrow> handleSort field (sortBy, sortOrder) = (field, Asc))"
  by (simp add: handleSort_def)

theorem handleSort_toggle_witness:
  "handleSort SortDate (SortDate, Desc) = (SortDate, Asc)
   \<and> handleSort SortDate (SortDate, Asc) = (SortDate, Desc)
   \<and> handleSort SortName (SortDate, Desc) = (SortName, Asc)"
  using handleSort_toggle [of SortDate SortDate Desc] handleSort_toggle [of SortName SortDate Desc]
  by simp

subsection \<open>Appointment editor\<close>

lemma validate_cases:
  "validate fd =
     (if trim (title fd) = []
      then (if date_ge (start fd) (end' fd)
            then ([(''title'', ''Title is required''), (''end'', ''End time must be after start time'')], False)
            else ([(''title'', ''Title is required'')], False))
      else (if date_ge (start fd) (end' fd)
            then ([(''end'', ''End time must be after start time'')], False)
            else ([], True)))"
  by (simp add: validate_def)

text \<open>
  On a draft whose two dates are valid, \<open>onSave\<close> is called exactly when the trimmed
  title is not empty and the end is after the start, once, with the draft's fields and
  the id of the record being edited (when that id is not empty) or \<open>apt-\<close> and the
  clock reading; the errors object gets the title error and the end error, each on its
  own condition.
\<close>

lemma handleSubmit_valid_dates:
  assumes "start (formData st) = Some s" and "end' (formData st) = Some e"
  shows "(snd (handleSubmit appointment now st) \<noteq> [])
           = (trim (title (formData st)) \<noteq> [] \<and> s < e)"
    and "trim (title (formData st)) \<noteq> [] \<and> s < e \<Longrightarrow>
           snd (handleSubmit appointment now st)
             = [appointmentToSave appointment now (formData st)]"
    and "map_of (errors (fst (handleSubmit appointment now st))) ''title''
           = (if trim (title (formData st)) = [] then Some ''Title is required'' else None)"
    and "map_of (errors (fst (handleSubmit appointment now st))) ''end''
           = (if e \<le> s then Some ''End time must be after start time'' else None)"
  using assms by (auto simp: handleSubmit_def validate_cases date_ge_def)

lemma appointmentToSave_fields:
  "FormData.truncate (appointmentToSave appointment now fd) = fd"
  "appointmentToSave None now fd = FormData.extend fd (Appointment.fields (''apt-'' @ number_to_string now))"
  "id' a \<noteq> [] \<Longrightarrow> id' (appointmentToSave (Some a) now fd) = id' a"
  "id' (appointmentToSave None now fd) = ''apt-'' @ number_to_string now"
  by (simp_all add: appointmentToSave_def FormData.truncate_def FormData.extend_def
      Appointment.fields_def)

lemma editorStartCleared_draft:
  "formData editorStartCleared =
     \<lparr>title = ''Hearing'', start = None, end' = Some 1763636400000, type' = ''appointment'',
      client = Some [], caseReference = Some [], location = Some [], notes' = Some [],
      reminder = Some ''1hour''\<rparr>"
  "errors editorStartCleared = []"
  by (simp_all add: editorStartCleared_def editorOnSlot_def handleInputChange_def set_field_def
      seedFormData_def initialFormData_def slotNov20_def parseCleared_def truthy_def)

lemma trim_Hearing: "trim ''Hearing'' = ''Hearing''"
  by (simp add: trim_def is_whitespace_def)

lemma number_to_string_5: "number_to_string 5 = ''5''"
  by (simp add: number_to_string_def)

text \<open>
  C1. The user picks a slot, types the title "Hearing" and empties the start field. On
  submit no error is set and \<open>onSave\<close> is called with a record whose start is the
  Invalid Date, although its end is not after its start.
\<close>

theorem handleSubmit_invalid_start:
  "snd (handleSubmit None 5 editorStartCleared)
     = [\<lparr>title = ''Hearing'', start = None, end' = Some 1763636400000, type' = ''appointment'',
         client = Some [], caseReference = Some [], location = Some [], notes' = Some [],
         reminder = Some ''1hour'', id' = ''apt-5''\<rparr>]
   \<and> errors (fst (handleSubmit None 5 editorStartCleared)) = []
   \<and> \<not> date_gt (end' (formData editorStartCleared)) (start (formData editorStartCleared))"
  by (simp add: handleSubmit_def validate_cases editorStartCleared_draft trim_Hearing
      date_ge_def date_gt_def appointmentToSave_def number_to_string_5
      FormData.extend_def Appointment.fields_def)

text \<open>
  C8. Editing a field that has an error leaves that field without an error, and the
  entry of every other field as it was.
\<close>

theorem handleInputChange_clears_field:
  "truthy (map_of (errors st) nm) \<Longrightarrow>
     \<not> truthy (map_of (errors (handleInputChange parseDate nm v st)) nm)
     \<and> (\<forall>f. f \<noteq> nm \<longrightarrow>
           map_of (errors (handleInputChange parseDate nm v st)) f = map_of (errors st) f)"
  by (simp add: handleInputChange_def update_conv' truthy_def)

theorem handleInputChange_clears_field_witness:
  "truthy (map_of (errors (fst (handleSubmit None 5 (editorOnSlot [])))) ''title'')
   \<and> \<not> truthy (map_of (errors (handleInputChange (\<lambda>v. None) ''title'' ''Hearing''
                    (fst (handleSubmit None 5 (editorOnSlot []))))) ''title'')
   \<and> map_of (errors (handleInputChange (\<lambda>v. None) ''title'' ''Hearing''
                    (fst (handleSubmit None 5 (editorOnSlot []))))) ''end''
       = map_of (errors (fst (handleSubmit None 5 (editorOnSlot [])))) ''end''"
proof -
  have e: "errors (fst (handleSubmit None 5 (editorOnSlot []))) = [(''title'', ''Title is required'')]"
    by (simp add: handleSubmit_def validate_cases editorOnSlot_def handleInputChange_def
        set_field_def seedFormData_def initialFormData_def slotNov20_def truthy_def trim_def
        date_ge_def)
  then have t: "truthy (map_of (errors (fst (handleSubmit None 5 (editorOnSlot [])))) ''title'')"
    by (simp add: truthy_def)
  show ?thesis
    using t handleInputChange_clears_field
      [OF t, of "\<lambda>v. None" "''Hearing''"]
    by simp
qed

subsection \<open>Calendar view\<close>

lemma editorOnSlot_draft:
  "formData (editorOnSlot t) =
     \<lparr>title = t, start = Some 1763632800000, end' = Some 1763636400000, type' = ''appointment'',
      client = Some [], caseReference = Some [], location = Some [], notes' = Some [],
      reminder = Some ''1hour''\<rparr>"
  "errors (editorOnSlot t) = []"
  by (simp_all add: editorOnSlot_def handleInputChange_def set_field_def seedFormData_def
      initialFormData_def slotNov20_def truthy_def)

lemma savedDeposition_record:
  "savedDeposition =
     \<lparr>title = ''Deposition'', start = Some 1763632800000, end' = Some 1763636400000,
      type' = ''appointment'', client = Some [], caseReference = Some [], location = Some [],
      notes' = Some [], reminder = Some ''1hour'', id' = ''apt-5''\<rparr>"
  by (simp add: savedDeposition_def appointmentToSave_def editorOnSlot_draft number_to_string_5
      FormData.extend_def Appointment.fields_def)

lemma calendarSecondSlot_state:
  "appointments calendarSecondSlot =
     mockAppointments @
     [\<lparr>title = ''Hearing'', start = Some 1763632800000, end' = Some 1763636400000,
       type' = ''appointment'', client = Some [], caseReference = Some [], location = Some [],
       notes' = Some [], reminder = Some ''1hour'', id' = ''apt-5''\<rparr>]"
  "selectedAppointment calendarSecondSlot = None"
  by (simp_all add: calendarSecondSlot_def handleSelectSlot_def handleSaveAppointment_def
      initialCalendar_def appointmentToSave_def editorOnSlot_draft number_to_string_5
      FormData.extend_def Appointment.fields_def)

text \<open>
  C2, as stated, fails. With "Hearing" saved at clock reading 5, a second appointment
  created at the same reading gets the same id \<open>apt-5\<close>. The editor hands it over (the
  draft is valid), an entry with that id is present, and the calendar appends the record
  instead of replacing that entry.
\<close>

theorem handleSaveAppointment_appends_duplicate:
  "snd (handleSubmit (selectedAppointment calendarSecondSlot) 5 (editorOnSlot ''Deposition''))
     = [savedDeposition]
   \<and> id' (appointments calendarSecondSlot ! 4) = id' savedDeposition
   \<and> appointments calendarSecondSlot ! 4 \<noteq> savedDeposition
   \<and> appointments (handleSaveAppointment savedDeposition calendarSecondSlot)
       = appointments calendarSecondSlot @ [savedDeposition]"
proof -
  have "trim ''Deposition'' = ''Deposition''" by (simp add: trim_def is_whitespace_def)
  then have "snd (handleSubmit (selectedAppointment calendarSecondSlot) 5 (editorOnSlot ''Deposition''))
     = [savedDeposition]"
    by (simp add: handleSubmit_def validate_cases editorOnSlot_draft date_ge_def
        savedDeposition_def calendarSecondSlot_state)
  moreover have "id' (appointments calendarSecondSlot ! 4) = id' savedDeposition
     \<and> appointments calendarSecondSlot ! 4 \<noteq> savedDeposition"
    by (simp add: calendarSecondSlot_state savedDeposition_record mockAppointments_def)
  moreover have "appointments (handleSaveAppointment savedDeposition calendarSecondSlot)
       = appointments calendarSecondSlot @ [savedDeposition]"
    by (simp add: handleSaveAppointment_def calendarSecondSlot_state)
  ultimately show ?thesis by blast
qed

text \<open>
  C2, amended. The calendar goes by the mode the editor was opened in. Opened on an
  existing entry, it replaces every entry that has the id of the saved record and
  appends nothing; opened on an empty slot, it appends the saved record. Every other
  entry stays as it is, in its place. So where an entry with the saved id is present
  exactly when the editor was opened on an existing entry, the result is: replace the
  entry with that id if there is one, append otherwise.
\<close>

theorem handleSaveAppointment_by_mode:
  "(selectedAppointment s \<noteq> None \<longrightarrow>
      length (appointments (handleSaveAppointment r s)) = length (appointments s)
      \<and> (\<forall>i < length (appointments s).
            appointments (handleSaveAppointment r s) ! i
              = (if id' (appointments s ! i) = id' r then r else appointments s ! i)))
   \<and> (selectedAppointment s = None \<longrightarrow>
        appointments (handleSaveAppointment r s) = appointments s @ [r])
   \<and> (((\<exists>apt \<in> set (appointments s). id' apt = id' r) \<longleftrightarrow> selectedAppointment s \<noteq> None) \<longrightarrow>
        (if \<exists>apt \<in> set (appointments s). id' apt = id' r
         then length (appointments (handleSaveAppointment r s)) = length (appointments s)
              \<and> (\<forall>i < length (appointments s).
                    appointments (handleSaveAppointment r s) ! i
                      = (if id' (appointments s ! i) = id' r then r else appointments s ! i))
         else appointments (handleSaveAppointment r s) = appointments s @ [r]))"
  by (auto simp: handleSaveAppointment_def)

theorem handleSaveAppointment_by_mode_witness:
  "selectedAppointment calendarEditing \<noteq> None
   \<and> (\<exists>apt \<in> set (appointments calendarEditing). id' apt = id' savedEdit)
   \<and> map title (appointments (handleSaveAppointment savedEdit calendarEditing))
       = [''Client Consultation - Smith Case'', ''Court Hearing - moved'',
          ''Filing Deadline - Brown Case'', ''Document Review Meeting'']
   \<and> appointments (handleSaveAppointment savedEdit calendarEditing) ! 1 = savedEdit
   \<and> appointments (handleSaveAppointment savedDeposition initialCalendar)
       = mockAppointments @ [savedDeposition]"
  using handleSaveAppointment_by_mode [of calendarEditing savedEdit]
    handleSaveAppointment_by_mode [of initialCalendar savedDeposition]
  by (simp add: calendarEditing_def handleSelectEvent_def initialCalendar_def mockAppointments_def
      savedEdit_def appointmentToSave_def handleInputChange_def set_field_def seedFormData_def
      truthy_def or_else_def handleSaveAppointment_def FormData.extend_def Appointment.fields_def)

subsection \<open>Preview zoom\<close>

lemma floor_le_round_half_even: "\<lfloor>y\<rfloor> \<le> round_half_even y"
  by (simp add: round_half_even_def Let_def)

lemma rhe_ge: "of_int n \<le> y \<Longrightarrow> n \<le> round_half_even y"
proof -
  assume "of_int n \<le> y"
  then have "n \<le> \<lfloor>y\<rfloor>" by (simp add: le_floor_iff)
  then show ?thesis using floor_le_round_half_even[of y] by linarith
qed

lemma rhe_le: "y \<le> of_int n \<Longrightarrow> round_half_even y \<le> n"
proof -
  assume a: "y \<le> of_int n"
  have f: "\<lfloor>y\<rfloor> \<le> n" using a by (simp add: floor_le_iff) 
  show ?thesis
  proof (cases "\<lfloor>y\<rfloor> = n")
    case True
    then have "y = of_int n" using a of_int_floor_le[of y] by simp
    then show ?thesis by (simp add: round_half_even_def)
  next
    case False
    then have "\<lfloor>y\<rfloor> + 1 \<le> n" using f by simp
    then show ?thesis unfolding round_half_even_def Let_def by auto
  qed
qed

lemma rhe_near:
  assumes "of_int n - 1 / 2 < y" "y < of_int n + 1 / 2"
  shows "round_half_even y = n"
proof (cases "of_int n \<le> y")
  case True
  then have "\<lfloor>y\<rfloor> = n" using assms by (simp add: floor_unique)
  then show ?thesis using assms by (simp add: round_half_even_def)
next
  case False
  then have "\<lfloor>y\<rfloor> = n - 1" using assms by (intro floor_unique) auto
  then show ?thesis using assms by (simp add: round_half_even_def)
qed

lemma floorlog_powi:
  assumes "0 < n"
  shows "(2::rat) powi (int (floorlog 2 n) - 1) \<le> of_nat n \<and> (of_nat n :: rat) < 2 powi (int (floorlog 2 n))"
proof -
  have b: "2 ^ (floorlog 2 n - 1) \<le> n \<and> n < 2 ^ floorlog 2 n"
    using floorlog_bounds[of n 2] assms by simp
  have p: "0 < floorlog 2 n" using assms by (simp add: floorlog_def)
  then have e: "int (floorlog 2 n) - 1 = int (floorlog 2 n - 1)" by simp
  have "(of_nat (2 ^ (floorlog 2 n - 1)) :: rat) \<le> of_nat n"
    using b by (simp only: of_nat_le_iff)
  moreover have "(of_nat n :: rat) < of_nat (2 ^ floorlog 2 n)"
    using b by (simp only: of_nat_less_iff)
  ultimately show ?thesis unfolding e power_int_of_nat by simp
qed

lemma binade_spec:
  assumes "0 < x"
  shows "2 powi (binade x) \<le> x \<and> x < 2 powi (binade x + 1)"
proof -
  obtain p q where pq: "quotient_of x = (p, q)" by (cases "quotient_of x")
  have q: "0 < q" using pq quotient_of_denom_pos by blast
  have x: "x = of_int p / of_int q" using pq by (rule quotient_of_div)
  have p: "0 < p" using assms q x by (simp add: zero_less_divide_iff)
  define P :: rat where "P = of_nat (nat p)"
  define Q :: rat where "Q = of_nat (nat q)"
  define A :: rat where "A = 2 powi (int (floorlog 2 (nat p)))"
  define B :: rat where "B = 2 powi (int (floorlog 2 (nat q)))"
  have PQ: "x = P / Q" "0 < P" "0 < Q" using x p q by (simp_all add: P_def Q_def)
  have A: "A / 2 \<le> P" "P < A"
    using floorlog_powi[of "nat p"] p by (simp_all add: A_def P_def power_int_diff)
  have B: "B / 2 \<le> Q" "Q < B"
    using floorlog_powi[of "nat q"] q by (simp_all add: B_def Q_def power_int_diff)
  have AB: "0 < A" "0 < B" by (simp_all add: A_def B_def)
  define e where "e = int (floorlog 2 (nat p)) - int (floorlog 2 (nat q))"
  have e: "2 powi e = A / B" "2 powi (e + 1) = 2 * A / B" "2 powi (e - 1) = A / (2 * B)"
    by (simp_all add: e_def A_def B_def power_int_diff power_int_add)
  have bin: "binade x = (if 2 powi e \<le> x then e else e - 1)"
    by (simp add: binade_def pq e_def Let_def)
  have up: "P / Q < 2 * A / B"
  proof -
    have "P * B < A * (2 * Q)"
      using A B PQ AB by (intro mult_less_le_imp_less) auto
    then show ?thesis using PQ AB by (simp add: field_simps)
  qed
  have lo: "A / (2 * B) \<le> P / Q"
  proof -
    have "A * Q \<le> (2 * P) * B"
      using A B PQ AB by (intro mult_mono) auto
    then show ?thesis using PQ AB by (simp add: field_simps)
  qed
  have up': "x < 2 powi (e + 1)" using up e(2) PQ(1) by simp
  have lo': "2 powi (e - 1) \<le> x" using lo e(3) PQ(1) by simp
  show ?thesis
  proof (cases "2 powi e \<le> x")
    case True
    then have "binade x = e" by (simp add: bin)
    then show ?thesis using True up' by simp
  next
    case False
    then have "binade x = e - 1" by (simp add: bin)
    then show ?thesis using False lo' by simp
  qed
qed

lemma powi_less_cancel: "(2::rat) powi a < 2 powi b \<Longrightarrow> a < b"
  by (metis linorder_not_le one_le_numeral power_int_increasing)

lemma binade_unique:
  assumes "0 < x" "2 powi e \<le> x" "x < 2 powi (e + 1)"
  shows "binade x = e"
proof -
  have "2 powi (binade x) < (2::rat) powi (e + 1)" using binade_spec[OF assms(1)] assms by linarith
  then have 1: "binade x < e + 1" by (rule powi_less_cancel)
  have "(2::rat) powi e < 2 powi (binade x + 1)" using binade_spec[OF assms(1)] assms by linarith
  then have 2: "e < binade x + 1" by (rule powi_less_cancel)
  show ?thesis using 1 2 by simp
qed

lemma to_double_pos:
  assumes "0 < x" "2 powi e \<le> x" "x < 2 powi (e + 1)"
  shows "to_double x = of_int (round_half_even (x / 2 powi (e - 52))) * 2 powi (e - 52)"
  using assms binade_unique[OF assms] by (simp add: to_double_def Let_def)

lemma lit_0_2: "to_double (2 / 10) = 3602879701896397 / 18014398509481984"
proof -
  have "round_half_even ((2 / 10) / 2 powi (-3 - 52)) = 7205759403792794"
    by (rule rhe_near) (simp_all add: power_int_minus)
  then show ?thesis
    using to_double_pos[of "2/10" "-3"] by (simp add: power_int_minus)
qed

lemma to_double_ge_half:
  assumes "1 / 2 \<le> x"
  shows "1 / 2 \<le> to_double x"
proof -
  have x: "0 < x" using assms by simp
  define e where "e = binade x"
  have sp: "2 powi e \<le> x" "x < 2 powi (e + 1)" using binade_spec[OF x] by (simp_all add: e_def)
  have "(2::rat) powi (-1) < 2 powi (e + 1)" using sp assms by (simp add: power_int_minus)
  then have e: "-1 \<le> e" using powi_less_cancel by fastforce
  define u :: rat where "u = 2 powi (e - 52)"
  have u: "0 < u" by (simp add: u_def)
  have "of_int (2 ^ 52) \<le> x / u"
  proof -
    have "2 powi e / u = (2::rat) powi 52" by (simp add: u_def power_int_diff)
    moreover have "2 powi e / u \<le> x / u" using sp u by (simp add: divide_right_mono)
    ultimately show ?thesis by simp
  qed
  then have "2 ^ 52 \<le> round_half_even (x / u)" by (rule rhe_ge)
  then have "(of_int (2 ^ 52) :: rat) \<le> of_int (round_half_even (x / u))" by (simp only: of_int_le_iff)
  then have "of_int (2 ^ 52) * u \<le> of_int (round_half_even (x / u)) * u"
    using u by (simp only: mult_le_cancel_right_pos)
  moreover have "of_int (2 ^ 52) * u = 2 powi e" by (simp add: u_def power_int_diff)
  moreover have "to_double x = of_int (round_half_even (x / u)) * u"
    using to_double_pos[OF x sp] by (simp add: u_def)
  moreover have "(2::rat) powi (-1) \<le> 2 powi e" using e by (intro power_int_increasing) auto
  ultimately show ?thesis by (simp add: power_int_minus)
qed

lemma to_double_le_3:
  assumes "0 < x" "x \<le> 3"
  shows "to_double x \<le> 3"
proof -
  define e where "e = binade x"
  have sp: "2 powi e \<le> x" "x < 2 powi (e + 1)" using binade_spec[OF assms(1)] by (simp_all add: e_def)
  have "(2::rat) powi e < 2 powi 2" using sp assms by simp
  then have e: "e < 2" by (rule powi_less_cancel)
  define u :: rat where "u = 2 powi (e - 52)"
  have u: "0 < u" by (simp add: u_def)
  define m :: int where "m = 3 * 2 ^ nat (52 - e)"
  have m: "of_int m * u = 3"
  proof -
    have "(2::rat) ^ nat (52 - e) = 2 powi (52 - e)" using e by (simp add: power_int_def)
    then have "of_int m * u = 3 * (2 powi (52 - e) * 2 powi (e - 52))" by (simp add: m_def u_def)
    also have "2 powi (52 - e) * 2 powi (e - 52) = (2::rat) powi 0"
      by (subst power_int_add[symmetric]) simp_all
    finally show ?thesis by simp
  qed
  have "x / u \<le> of_int m" using assms u m by (simp add: field_simps)
  then have "round_half_even (x / u) \<le> m" by (rule rhe_le)
  then have "(of_int (round_half_even (x / u)) :: rat) \<le> of_int m" by (simp only: of_int_le_iff)
  then have "of_int (round_half_even (x / u)) * u \<le> of_int m * u"
    using u by (simp only: mult_le_cancel_right_pos)
  moreover have "to_double x = of_int (round_half_even (x / u)) * u"
    using to_double_pos[OF assms(1) sp] by (simp add: u_def)
  ultimately show ?thesis using m by simp
qed

lemma to_double_3: "to_double 3 = 3"
proof -
  have "round_half_even (3 / 2 powi (1 - 52)) = 3 * 2 ^ 51"
    by (rule rhe_near) (simp_all add: power_int_minus)
  then show ?thesis using to_double_pos[of 3 1] by (simp add: power_int_minus)
qed


lemma lit_0_2_normal: "to_double (1 / 5) = 3602879701896397 / 18014398509481984"
  using lit_0_2 by simp

lemma to_double_eval:
  assumes "0 < x" "2 powi e \<le> x" "x < 2 powi (e + 1)"
    and "of_int n - 1 / 2 < x / 2 powi (e - 52)" "x / 2 powi (e - 52) < of_int n + 1 / 2"
  shows "to_double x = of_int n * 2 powi (e - 52)"
  using to_double_pos[OF assms(1-3)] rhe_near[OF assms(4,5)] by simp

lemma zoom_in_step_0: "handleZoomIn (1) = 5404319552844595 / 4503599627370496"
proof -
  have h: "to_double (1 + 3602879701896397 / 18014398509481984) = 5404319552844595 / 4503599627370496"
    using to_double_eval[of "1 + 3602879701896397 / 18014398509481984" "0" "5404319552844595"]
    by (simp add: power_int_minus)
  show ?thesis unfolding handleZoomIn_def lit_0_2 h by simp
qed

lemma zoom_in_step_1: "handleZoomIn (5404319552844595 / 4503599627370496) = 3152519739159347 / 2251799813685248"
proof -
  have h: "to_double (5404319552844595 / 4503599627370496 + 3602879701896397 / 18014398509481984) = 3152519739159347 / 2251799813685248"
    using to_double_eval[of "5404319552844595 / 4503599627370496 + 3602879701896397 / 18014398509481984" "0" "6305039478318694"]
    by (simp add: power_int_minus)
  show ?thesis unfolding handleZoomIn_def lit_0_2 h by simp
qed

lemma zoom_in_step_2: "handleZoomIn (3152519739159347 / 2251799813685248) = 7205759403792793 / 4503599627370496"
proof -
  have h: "to_double (3152519739159347 / 2251799813685248 + 3602879701896397 / 18014398509481984) = 7205759403792793 / 4503599627370496"
    using to_double_eval[of "3152519739159347 / 2251799813685248 + 3602879701896397 / 18014398509481984" "0" "7205759403792793"]
    by (simp add: power_int_minus)
  show ?thesis unfolding handleZoomIn_def lit_0_2 h by simp
qed

lemma zoom_in_step_3: "handleZoomIn (7205759403792793 / 4503599627370496) = 2026619832316723 / 1125899906842624"
proof -
  have h: "to_double (7205759403792793 / 4503599627370496 + 3602879701896397 / 18014398509481984) = 2026619832316723 / 1125899906842624"
    using to_double_eval[of "7205759403792793 / 4503599627370496 + 3602879701896397 / 18014398509481984" "0" "8106479329266892"]
    by (simp add: power_int_minus)
  show ?thesis unfolding handleZoomIn_def lit_0_2 h by simp
qed

lemma zoom_in_step_4: "handleZoomIn (2026619832316723 / 1125899906842624) = 9007199254740991 / 4503599627370496"
proof -
  have h: "to_double (2026619832316723 / 1125899906842624 + 3602879701896397 / 18014398509481984) = 9007199254740991 / 4503599627370496"
    using to_double_eval[of "2026619832316723 / 1125899906842624 + 3602879701896397 / 18014398509481984" "0" "9007199254740991"]
    by (simp add: power_int_minus)
  show ?thesis unfolding handleZoomIn_def lit_0_2 h by simp
qed

lemma zoom_in_step_5: "handleZoomIn (9007199254740991 / 4503599627370496) = 4953959590107545 / 2251799813685248"
proof -
  have h: "to_double (9007199254740991 / 4503599627370496 + 3602879701896397 / 18014398509481984) = 4953959590107545 / 2251799813685248"
    using to_double_eval[of "9007199254740991 / 4503599627370496 + 3602879701896397 / 18014398509481984" "1" "4953959590107545"]
    by (simp add: power_int_minus)
  show ?thesis unfolding handleZoomIn_def lit_0_2 h by simp
qed

lemma zoom_in_step_6: "handleZoomIn (4953959590107545 / 2251799813685248) = 5404319552844595 / 2251799813685248"
proof -
  have h: "to_double (4953959590107545 / 2251799813685248 + 3602879701896397 / 18014398509481984) = 5404319552844595 / 2251799813685248"
    using to_double_eval[of "4953959590107545 / 2251799813685248 + 3602879701896397 / 18014398509481984" "1" "5404319552844595"]
    by (simp add: power_int_minus)
  show ?thesis unfolding handleZoomIn_def lit_0_2 h by simp
qed

lemma zoom_in_step_7: "handleZoomIn (5404319552844595 / 2251799813685248) = 5854679515581645 / 2251799813685248"
proof -
  have h: "to_double (5404319552844595 / 2251799813685248 + 3602879701896397 / 18014398509481984) = 5854679515581645 / 2251799813685248"
    using to_double_eval[of "5404319552844595 / 2251799813685248 + 3602879701896397 / 18014398509481984" "1" "5854679515581645"]
    by (simp add: power_int_minus)
  show ?thesis unfolding handleZoomIn_def lit_0_2 h by simp
qed

lemma zoom_in_step_8: "handleZoomIn (5854679515581645 / 2251799813685248) = 6305039478318695 / 2251799813685248"
proof -
  have h: "to_double (5854679515581645 / 2251799813685248 + 3602879701896397 / 18014398509481984) = 6305039478318695 / 2251799813685248"
    using to_double_eval[of "5854679515581645 / 2251799813685248 + 3602879701896397 / 18014398509481984" "1" "6305039478318695"]
    by (simp add: power_int_minus)
  show ?thesis unfolding handleZoomIn_def lit_0_2 h by simp
qed

lemma zoom_in_step_9: "handleZoomIn (6305039478318695 / 2251799813685248) = 3"
proof -
  have h: "to_double (6305039478318695 / 2251799813685248 + 3602879701896397 / 18014398509481984) = 6755399441055745 / 2251799813685248"
    using to_double_eval[of "6305039478318695 / 2251799813685248 + 3602879701896397 / 18014398509481984" "1" "6755399441055745"]
    by (simp add: power_int_minus)
  show ?thesis unfolding handleZoomIn_def lit_0_2 h by simp
qed

lemma zoom_in_step_10: "handleZoomIn (3) = 3"
proof -
  have h: "to_double (3 + 3602879701896397 / 18014398509481984) = 3602879701896397 / 1125899906842624"
    using to_double_eval[of "3 + 3602879701896397 / 18014398509481984" "1" "7205759403792794"]
    by (simp add: power_int_minus)
  show ?thesis unfolding handleZoomIn_def lit_0_2 h by simp
qed


lemmas zoom_in_steps = zoom_in_step_0 zoom_in_step_1 zoom_in_step_2 zoom_in_step_3 zoom_in_step_4 zoom_in_step_5 zoom_in_step_6 zoom_in_step_7 zoom_in_step_8 zoom_in_step_9 zoom_in_step_10

lemma zoom_in_fixed: "(handleZoomIn ^^ k) 3 = 3"
  by (induction k) (simp_all add: zoom_in_step_10)

lemma zoom_in_ten: "(handleZoomIn ^^ 10) 1 = 3"
  by (simp add: eval_nat_numeral zoom_in_steps)

lemma zoom_in_below: "n < 10 \<Longrightarrow> (handleZoomIn ^^ n) 1 < 3"
proof -
  assume "n < 10"
  then have "n \<in> {0, 1, 2, 3, 4, 5, 6, 7, 8, 9}" by auto
  then show ?thesis
    by (auto simp: eval_nat_numeral zoom_in_steps)
qed

lemma zoom_in_from_ten: "10 \<le> n \<Longrightarrow> (handleZoomIn ^^ n) 1 = 3"
proof -
  assume "10 \<le> n"
  then obtain k where n: "n = k + 10" by (metis add.commute le_Suc_ex)
  show ?thesis unfolding n funpow_add o_apply zoom_in_ten by (rule zoom_in_fixed)
qed

lemma zoom_keeps_range:
  assumes "1 / 2 \<le> s" "s \<le> 3"
  shows "1 / 2 \<le> zoom a s \<and> zoom a s \<le> 3"
proof (cases a)
  case ZoomIn
  have "1 / 2 \<le> s + 3602879701896397 / 18014398509481984" using assms by simp
  then have "1 / 2 \<le> to_double (s + 3602879701896397 / 18014398509481984)"
    by (rule to_double_ge_half)
  then show ?thesis using ZoomIn by (simp add: handleZoomIn_def lit_0_2_normal)
next
  case ZoomOut
  have "0 < s - 3602879701896397 / 18014398509481984"
    and "s - 3602879701896397 / 18014398509481984 \<le> 3" using assms by simp_all
  then have "to_double (s - 3602879701896397 / 18014398509481984) \<le> 3"
    by (rule to_double_le_3)
  then show ?thesis using ZoomOut by (simp add: handleZoomOut_def lit_0_2_normal)
qed

lemma zoomAll_keeps_range:
  "1 / 2 \<le> s \<Longrightarrow> s \<le> 3 \<Longrightarrow> 1 / 2 \<le> zoomAll actions s \<and> zoomAll actions s \<le> 3"
proof (induction actions arbitrary: s)
  case Nil
  then show ?case by (simp add: zoomAll_def)
next
  case (Cons a actions)
  have "1 / 2 \<le> zoom a s \<and> zoom a s \<le> 3" using Cons.prems by (rule zoom_keeps_range)
  then have "1 / 2 \<le> zoomAll actions (zoom a s) \<and> zoomAll actions (zoom a s) \<le> 3"
    using Cons.IH by blast
  then show ?case by (simp add: zoomAll_def)
qed

lemma rhe_tie_below: "even n \<Longrightarrow> round_half_even (of_int n - 1 / 2) = n"
proof -
  assume n: "even n"
  have f: "\<lfloor>(of_int n :: rat) - 1 / 2\<rfloor> = n - 1" by (intro floor_unique) auto
  show ?thesis using n by (simp add: round_half_even_def f)
qed

lemma to_double_eval_tie:
  assumes "0 < x" "2 powi e \<le> x" "x < 2 powi (e + 1)"
    and "x / 2 powi (e - 52) = of_int n - 1 / 2" "even n"
  shows "to_double x = of_int n * 2 powi (e - 52)"
  using to_double_pos[OF assms(1-3)] rhe_tie_below[OF assms(5)] assms(4) by simp

lemma zoom_out_step_0: "handleZoomOut (1) = 3602879701896397 / 4503599627370496"
proof -
  have h: "to_double (1 - 3602879701896397 / 18014398509481984) = 3602879701896397 / 4503599627370496"
    using to_double_eval_tie[of "1 - 3602879701896397 / 18014398509481984" "-1" "7205759403792794"]
    by (simp add: power_int_minus)
  show ?thesis unfolding handleZoomOut_def lit_0_2 h by simp
qed

lemma zoom_out_step_1: "handleZoomOut (3602879701896397 / 4503599627370496) = 1351079888211149 / 2251799813685248"
proof -
  have h: "to_double (3602879701896397 / 4503599627370496 - 3602879701896397 / 18014398509481984) = 1351079888211149 / 2251799813685248"
    using to_double_eval_tie[of "3602879701896397 / 4503599627370496 - 3602879701896397 / 18014398509481984" "-1" "5404319552844596"]
    by (simp add: power_int_minus)
  show ?thesis unfolding handleZoomOut_def lit_0_2 h by simp
qed

lemma zoom_out_step_2: "handleZoomOut (1351079888211149 / 2251799813685248) = 1 / 2"
proof -
  have h: "to_double (1351079888211149 / 2251799813685248 - 3602879701896397 / 18014398509481984) = 7205759403792795 / 18014398509481984"
    using to_double_eval[of "1351079888211149 / 2251799813685248 - 3602879701896397 / 18014398509481984" "-2" "7205759403792795"]
    by (simp add: power_int_minus)
  show ?thesis unfolding handleZoomOut_def lit_0_2 h by simp
qed

lemma zoom_out_step_3: "handleZoomOut (1 / 2) = 1 / 2"
proof -
  have h: "to_double (1 / 2 - 3602879701896397 / 18014398509481984) = 5404319552844595 / 18014398509481984"
    using to_double_eval[of "1 / 2 - 3602879701896397 / 18014398509481984" "-2" "5404319552844595"]
    by (simp add: power_int_minus)
  show ?thesis unfolding handleZoomOut_def lit_0_2 h by simp
qed

lemmas zoom_out_steps = zoom_out_step_0 zoom_out_step_1 zoom_out_step_2 zoom_out_step_3

lemma zoom_out_fixed: "(handleZoomOut ^^ k) (1 / 2) = 1 / 2"
proof (induction k)
  case 0
  show ?case by simp
next
  case (Suc k)
  have "(handleZoomOut ^^ Suc k) (1 / 2) = handleZoomOut ((handleZoomOut ^^ k) (1 / 2))"
    by simp
  also have "\<dots> = handleZoomOut (1 / 2)" by (simp only: Suc.IH)
  also have "\<dots> = 1 / 2" by (rule zoom_out_step_3)
  finally show ?case .
qed

lemma zoom_out_three: "(handleZoomOut ^^ 3) 1 = 1 / 2"
  by (simp add: eval_nat_numeral zoom_out_steps)

lemma zoom_out_above: "n < 3 \<Longrightarrow> 1 / 2 < (handleZoomOut ^^ n) 1"
proof -
  assume "n < 3"
  then have "n \<in> {0, 1, 2}" by auto
  then show ?thesis
    by (auto simp: eval_nat_numeral zoom_out_steps)
qed

lemma zoom_out_from_three: "3 \<le> n \<Longrightarrow> (handleZoomOut ^^ n) 1 = 1 / 2"
proof -
  assume "3 \<le> n"
  then obtain k where n: "n = k + 3" by (metis add.commute le_Suc_ex)
  show ?thesis unfolding n funpow_add o_apply zoom_out_three by (rule zoom_out_fixed)
qed

text \<open>Rounding moves a value by at most half the spacing of its binade.\<close>

lemma rhe_error: "\<bar>of_int (round_half_even y) - y\<bar> \<le> 1 / 2"
proof -
  have "of_int \<lfloor>y\<rfloor> \<le> y" "y < of_int \<lfloor>y\<rfloor> + 1" by linarith+
  then show ?thesis by (auto simp: round_half_even_def Let_def abs_le_iff)
qed

lemma to_double_error:
  assumes "0 < x" "x < 4"
  shows "\<bar>to_double x - x\<bar> \<le> 1 / 2 ^ 52"
proof -
  define e where "e = binade x"
  have sp: "2 powi e \<le> x" "x < 2 powi (e + 1)" using binade_spec[OF assms(1)] by (simp_all add: e_def)
  have "(2::rat) powi e < 2 powi 2" using sp assms by simp
  then have e: "e < 2" by (rule powi_less_cancel)
  define u :: rat where "u = 2 powi (e - 52)"
  have u: "0 < u" by (simp add: u_def)
  have "u \<le> 2 powi (- 51)" unfolding u_def using e by (intro power_int_increasing) auto
  then have u51: "u \<le> 1 / 2 ^ 51" by (simp add: power_int_minus)
  have td: "to_double x = of_int (round_half_even (x / u)) * u"
    using to_double_pos[OF assms(1) sp] by (simp add: u_def)
  have eq: "of_int (round_half_even (x / u)) * u - x
              = (of_int (round_half_even (x / u)) - x / u) * u"
    using u by (simp add: left_diff_distrib)
  have "\<bar>of_int (round_half_even (x / u)) * u - x\<bar>
          = \<bar>of_int (round_half_even (x / u)) - x / u\<bar> * u"
    unfolding eq abs_mult using u by simp
  also have "\<dots> \<le> 1 / 2 * u" using rhe_error[of "x / u"] u by (intro mult_right_mono) auto
  also have "\<dots> \<le> 1 / 2 * (1 / 2 ^ 51)" using u51 by simp
  finally show ?thesis by (simp add: td)
qed

text \<open>
  A zoom step is the step of 0.2 with the clamp, up to the rounding of the sum and of
  the literal.
\<close>

lemma abs_diff_bounds: "\<bar>x - y\<bar> \<le> d \<longleftrightarrow> y - d \<le> x \<and> x \<le> y + d" for x y d :: rat
  by (auto simp: abs_le_iff)

lemma zoom_step_size:
  assumes "1 / 2 \<le> s" "s \<le> 3"
  shows "\<bar>handleZoomIn s - min (s + 2 / 10) 3\<bar> \<le> 1 / 2 ^ 51"
    and "\<bar>handleZoomOut s - max (s - 2 / 10) (1 / 2)\<bar> \<le> 1 / 2 ^ 51"
proof -
  define a where "a = to_double (s + 3602879701896397 / 18014398509481984)"
  define b where "b = to_double (s - 3602879701896397 / 18014398509481984)"
  have "\<bar>a - (s + 3602879701896397 / 18014398509481984)\<bar> \<le> 1 / 2 ^ 52"
    unfolding a_def using assms by (intro to_double_error) auto
  then have a: "s + 3602879701896397 / 18014398509481984 - 1 / 2 ^ 52 \<le> a
      \<and> a \<le> s + 3602879701896397 / 18014398509481984 + 1 / 2 ^ 52"
    by (simp only: abs_diff_bounds)
  have "\<bar>b - (s - 3602879701896397 / 18014398509481984)\<bar> \<le> 1 / 2 ^ 52"
    unfolding b_def using assms by (intro to_double_error) auto
  then have b: "s - 3602879701896397 / 18014398509481984 - 1 / 2 ^ 52 \<le> b
      \<and> b \<le> s - 3602879701896397 / 18014398509481984 + 1 / 2 ^ 52"
    by (simp only: abs_diff_bounds)
  have zi: "handleZoomIn s = min a 3" by (simp add: handleZoomIn_def lit_0_2_normal a_def)
  have zo: "handleZoomOut s = max b (1 / 2)" by (simp add: handleZoomOut_def lit_0_2_normal b_def)
  show "\<bar>handleZoomIn s - min (s + 2 / 10) 3\<bar> \<le> 1 / 2 ^ 51"
    unfolding zi abs_diff_bounds using a by (simp add: min_def; linarith?)
  show "\<bar>handleZoomOut s - max (s - 2 / 10) (1 / 2)\<bar> \<le> 1 / 2 ^ 51"
    unfolding zo abs_diff_bounds using b by (simp add: max_def; linarith?)
qed

text \<open>
  C6. The scale starts at 1. A zoom-in adds 0.2 and clamps at 3, a zoom-out subtracts
  0.2 and clamps at 0.5, each up to the rounding of a double. Whatever the sequence of
  zoom-in and zoom-out actions, the scale stays between 0.5 and 3. Zooming in from the
  start, the scale is below 3 for the first nine steps, is 3 after the tenth and stays 3
  from then on; zooming out from the start, it is 0.5 after the third step and stays
  0.5.
\<close>

theorem zoom_clamped:
  "initialScale = 1
   \<and> (\<forall>actions. 1 / 2 \<le> zoomAll actions initialScale \<and> zoomAll actions initialScale \<le> 3)
   \<and> (\<forall>s. 1 / 2 \<le> s \<and> s \<le> 3 \<longrightarrow>
          \<bar>handleZoomIn s - min (s + 2 / 10) 3\<bar> \<le> 1 / 2 ^ 51
          \<and> \<bar>handleZoomOut s - max (s - 2 / 10) (1 / 2)\<bar> \<le> 1 / 2 ^ 51)
   \<and> (\<forall>n. n < 10 \<longrightarrow> (handleZoomIn ^^ n) initialScale < 3)
   \<and> (\<forall>n. 10 \<le> n \<longrightarrow> (handleZoomIn ^^ n) initialScale = 3)
   \<and> (\<forall>n. n < 3 \<longrightarrow> 1 / 2 < (handleZoomOut ^^ n) initialScale)
   \<and> (\<forall>n. 3 \<le> n \<longrightarrow> (handleZoomOut ^^ n) initialScale = 1 / 2)"
proof -
  have b: "\<forall>actions. 1 / 2 \<le> zoomAll actions initialScale \<and> zoomAll actions initialScale \<le> 3"
    using zoomAll_keeps_range[of 1] by (simp add: initialScale_def)
  have s: "\<forall>s. 1 / 2 \<le> s \<and> s \<le> 3 \<longrightarrow>
          \<bar>handleZoomIn s - min (s + 2 / 10) 3\<bar> \<le> 1 / 2 ^ 51
          \<and> \<bar>handleZoomOut s - max (s - 2 / 10) (1 / 2)\<bar> \<le> 1 / 2 ^ 51"
    using zoom_step_size by blast
  show ?thesis
    using b s zoom_in_below zoom_in_from_ten zoom_out_above zoom_out_from_three
    unfolding initialScale_def by blast
qed

theorem zoom_clamped_witness:
  "zoomAll [ZoomIn, ZoomIn] initialScale = 3152519739159347 / 2251799813685248
   \<and> 1 / 2 \<le> zoomAll [ZoomIn, ZoomIn] initialScale
   \<and> zoomAll [ZoomIn, ZoomIn] initialScale \<le> 3
   \<and> (handleZoomIn ^^ 9) initialScale < 3
   \<and> (handleZoomIn ^^ 12) initialScale = 3
   \<and> zoomAll [ZoomOut] initialScale = 3602879701896397 / 4503599627370496
   \<and> \<bar>handleZoomOut initialScale - max (initialScale - 2 / 10) (1 / 2)\<bar> \<le> 1 / 2 ^ 51
   \<and> \<bar>handleZoomIn initialScale - min (initialScale + 2 / 10) 3\<bar> \<le> 1 / 2 ^ 51
   \<and> (handleZoomOut ^^ 2) initialScale = 1351079888211149 / 2251799813685248
   \<and> (handleZoomOut ^^ 5) initialScale = 1 / 2"
proof -
  note z = zoom_clamped
  have r: "1 / 2 \<le> initialScale \<and> initialScale \<le> 3" by (simp add: initialScale_def)
  have v: "zoomAll [ZoomIn, ZoomIn] initialScale = 3152519739159347 / 2251799813685248"
    "zoomAll [ZoomOut] initialScale = 3602879701896397 / 4503599627370496"
    "(handleZoomOut ^^ 2) initialScale = 1351079888211149 / 2251799813685248"
    by (simp_all add: zoomAll_def initialScale_def zoom_in_steps zoom_out_steps eval_nat_numeral)
  have b: "1 / 2 \<le> zoomAll [ZoomIn, ZoomIn] initialScale
     \<and> zoomAll [ZoomIn, ZoomIn] initialScale \<le> 3"
    using z by blast
  have s: "\<bar>handleZoomOut initialScale - max (initialScale - 2 / 10) (1 / 2)\<bar> \<le> 1 / 2 ^ 51
     \<and> \<bar>handleZoomIn initialScale - min (initialScale + 2 / 10) 3\<bar> \<le> 1 / 2 ^ 51"
    using z r by blast
  have i: "\<And>n. n < 10 \<Longrightarrow> (handleZoomIn ^^ n) initialScale < 3"
    "\<And>n. 10 \<le> n \<Longrightarrow> (handleZoomIn ^^ n) initialScale = 3"
    "\<And>n. 3 \<le> n \<Longrightarrow> (handleZoomOut ^^ n) initialScale = 1 / 2"
    using z by blast+
  have n: "(handleZoomIn ^^ 9) initialScale < 3" "(handleZoomIn ^^ 12) initialScale = 3"
    "(handleZoomOut ^^ 5) initialScale = 1 / 2"
    using i(1)[of 9] i(2)[of 12] i(3)[of 5] by simp_all
  show ?thesis
    using v b s n by blast
qed

subsection \<open>JavaScript strings\<close>

lemma str_includes_sublist: "str_includes s t \<longleftrightarrow> sublist t s"
  by (induction s) (simp_all add: sublist_Cons_right)

lemma str_includes_empty: "str_includes s []"
  by (cases s) simp_all

subsection \<open>Upload flow\<close>

text \<open>The three declared content types of the scenario.\<close>

lemma fileType_scenarios:
  "fileType \<lparr>file_name = n, file_type = ''application/pdf'', file_size = k\<rparr> = ''pdf''"
  "fileType \<lparr>file_name = n, file_type = ''image/png'', file_size = k\<rparr> = ''image''"
  "fileType \<lparr>file_name = n, file_type = ''application/msword'', file_size = k\<rparr> = ''docx''"
  by (simp_all add: fileType_def)












subsection \<open>Document list: derived view\<close>

lemma mset_insert_by: "mset (insert_by cmp x ys) = add_mset x (mset ys)"
  by (induction ys) simp_all

lemma mset_sort_by: "mset (sort_by cmp xs) = mset xs"
  by (induction xs) (simp_all add: sort_by_def mset_insert_by)

lemma set_insert_by: "set (insert_by cmp x ys) = insert x (set ys)"
  by (induction ys) auto

lemma set_sort_by: "set (sort_by cmp xs) = set xs"
  by (induction xs) (simp_all add: sort_by_def set_insert_by)

text \<open>
  Insertion keeps a list sorted for a relation \<open>le\<close> that is transitive on the
  elements at hand and that the comparator decides: not positive means "may stand
  before", positive means "may stand behind".
\<close>

lemma sorted_insert_by:
  assumes tr: "\<And>a b c. a \<in> S \<Longrightarrow> b \<in> S \<Longrightarrow> c \<in> S \<Longrightarrow> le a b \<Longrightarrow> le b c \<Longrightarrow> le a c"
    and np: "\<And>a b. a \<in> S \<Longrightarrow> b \<in> S \<Longrightarrow> \<not> positive (cmp a b) \<Longrightarrow> le a b"
    and ps: "\<And>a b. a \<in> S \<Longrightarrow> b \<in> S \<Longrightarrow> positive (cmp a b) \<Longrightarrow> le b a"
    and x: "x \<in> S" and ys: "set ys \<subseteq> S" and so: "sorted_wrt le ys"
  shows "sorted_wrt le (insert_by cmp x ys)"
  using ys so
proof (induction ys)
  case Nil
  then show ?case by simp
next
  case (Cons y ys)
  have y: "y \<in> S" and sub: "set ys \<subseteq> S" using Cons.prems(1) by simp_all
  have rest: "\<forall>z \<in> set ys. le y z" and so': "sorted_wrt le ys" using Cons.prems(2) by simp_all
  show ?case
  proof (cases "positive (cmp x y)")
    case True
    have "le y x" using ps[OF x y True] .
    then have "\<forall>z \<in> set (insert_by cmp x ys). le y z" using rest by (simp add: set_insert_by)
    moreover have "sorted_wrt le (insert_by cmp x ys)" using Cons.IH[OF sub so'] .
    ultimately show ?thesis using True by simp
  next
    case False
    have xy: "le x y" using np[OF x y False] .
    have "\<forall>z \<in> set ys. le x z"
    proof
      fix z assume z: "z \<in> set ys"
      then have "le y z" using rest by blast
      then show "le x z" using tr[OF x y _ xy] z sub by blast
    qed
    then show ?thesis using False xy Cons.prems(2) by simp
  qed
qed

lemma sorted_sort_by:
  assumes tr: "\<And>a b c. a \<in> S \<Longrightarrow> b \<in> S \<Longrightarrow> c \<in> S \<Longrightarrow> le a b \<Longrightarrow> le b c \<Longrightarrow> le a c"
    and np: "\<And>a b. a \<in> S \<Longrightarrow> b \<in> S \<Longrightarrow> \<not> positive (cmp a b) \<Longrightarrow> le a b"
    and ps: "\<And>a b. a \<in> S \<Longrightarrow> b \<in> S \<Longrightarrow> positive (cmp a b) \<Longrightarrow> le b a"
    and xs: "set xs \<subseteq> S"
  shows "sorted_wrt le (sort_by cmp xs)"
  using xs
proof (induction xs)
  case Nil
  then show ?case by (simp add: sort_by_def)
next
  case (Cons x xs)
  have "sorted_wrt le (insert_by cmp x (sort_by cmp xs))"
  proof (rule sorted_insert_by[where S = S and le = le])
    show "x \<in> S" using Cons.prems by simp
    show "set (sort_by cmp xs) \<subseteq> S" using Cons.prems by (simp add: set_sort_by)
    show "sorted_wrt le (sort_by cmp xs)" using Cons.IH Cons.prems by simp
  qed (use tr np ps in blast)+
  then show ?case by (simp add: sort_by_def)
qed

lemma consistent_comparatorD:
  assumes "consistent_comparator lc"
  shows "(lc a b < 0) = (0 < lc b a)"
    and "lc a b \<le> 0 \<Longrightarrow> lc b c \<le> 0 \<Longrightarrow> lc a c \<le> 0"
    and "0 \<le> lc a b \<Longrightarrow> lc b a \<le> 0"
    and "\<not> lc a b \<le> 0 \<Longrightarrow> lc b a \<le> 0"
proof -
  show 1: "(lc a b < 0) = (0 < lc b a)" for a b
    using assms by (simp add: consistent_comparator_def)
  show "lc a b \<le> 0 \<Longrightarrow> lc b c \<le> 0 \<Longrightarrow> lc a c \<le> 0"
    using assms unfolding consistent_comparator_def by blast
  show "0 \<le> lc a b \<Longrightarrow> lc b a \<le> 0" using 1[of a b] by linarith
  show "\<not> lc a b \<le> 0 \<Longrightarrow> lc b a \<le> 0" using 1[of b a] by linarith
qed

lemma key_le_trans:
  assumes "consistent_comparator lc"
  shows "key_le lc gt sortBy a b \<Longrightarrow> key_le lc gt sortBy b c \<Longrightarrow> key_le lc gt sortBy a c"
  using consistent_comparatorD(2)[OF assms]
  by (cases sortBy) (auto simp: key_le_def split: option.splits)

lemma in_order_trans:
  assumes "consistent_comparator lc"
  shows "in_order lc gt sortBy sortOrder a b \<Longrightarrow> in_order lc gt sortBy sortOrder b c
         \<Longrightarrow> in_order lc gt sortBy sortOrder a c"
  using key_le_trans[OF assms] by (auto simp: in_order_def split: if_splits)

lemma comparison_decides:
  assumes c: "consistent_comparator lc"
    and a: "sortBy = SortDate \<longrightarrow> gt (uploadDate a) \<noteq> None"
    and b: "sortBy = SortDate \<longrightarrow> gt (uploadDate b) \<noteq> None"
  shows "\<not> positive (comparison lc gt sortBy sortOrder a b) \<Longrightarrow> in_order lc gt sortBy sortOrder a b"
    and "positive (comparison lc gt sortBy sortOrder a b) \<Longrightarrow> in_order lc gt sortBy sortOrder b a"
proof -
  note d = consistent_comparatorD[OF c]
  show "\<not> positive (comparison lc gt sortBy sortOrder a b) \<Longrightarrow> in_order lc gt sortBy sortOrder a b"
    using a b d(3)[of "name a" "name b"] d(3)[of "uploader a" "uploader b"]
    by (cases sortBy; cases sortOrder)
       (auto simp: comparison_def positive_def in_order_def key_le_def)
  show "positive (comparison lc gt sortBy sortOrder a b) \<Longrightarrow> in_order lc gt sortBy sortOrder b a"
    using a b d(4)[of "name a" "name b"] d(4)[of "uploader a" "uploader b"]
    by (cases sortBy; cases sortOrder)
       (auto simp: comparison_def positive_def in_order_def key_le_def)
qed

text \<open>
  C3. With a consistent collation, and upload dates that parse when the date is the
  key, the derived list has exactly the records of the collection (each as often as it
  occurs there) whose name, uploader or clientCase contains the search term, both in
  lower case, and whose type is the filter unless the filter is "all"; and it is ordered
  by the key in the chosen direction.
\<close>

theorem filteredDocuments_filter_sort:
  assumes "consistent_comparator lc"
    and "sortBy = SortDate \<longrightarrow> (\<forall>d \<in> set docs. gt (uploadDate d) \<noteq> None)"
  shows "mset (filteredDocuments lc gt docs searchTerm sortBy sortOrder filterType)
           = mset (filter
                (\<lambda>d. (sublist (toLowerCase searchTerm) (toLowerCase (name d))
                       \<or> sublist (toLowerCase searchTerm) (toLowerCase (uploader d))
                       \<or> (\<exists>c. clientCase d = Some c
                              \<and> sublist (toLowerCase searchTerm) (toLowerCase c)))
                      \<and> (doc_type d = filterType \<or> filterType = ''all''))
                docs)
         \<and> sorted_wrt (in_order lc gt sortBy sortOrder)
             (filteredDocuments lc gt docs searchTerm sortBy sortOrder filterType)"
proof -
  let ?keep = "\<lambda>doc. matchesSearch searchTerm doc \<and> matchesType filterType doc"
  have same: "?keep d = ((sublist (toLowerCase searchTerm) (toLowerCase (name d))
                       \<or> sublist (toLowerCase searchTerm) (toLowerCase (uploader d))
                       \<or> (\<exists>c. clientCase d = Some c
                              \<and> sublist (toLowerCase searchTerm) (toLowerCase c)))
                      \<and> (doc_type d = filterType \<or> filterType = ''all''))" for d
    by (auto simp: matchesSearch_def matchesType_def str_includes_sublist split: option.splits)
  have m: "mset (filteredDocuments lc gt docs searchTerm sortBy sortOrder filterType)
             = mset (filter ?keep docs)"
    by (simp add: filteredDocuments_def mset_sort_by)
  have s: "sorted_wrt (in_order lc gt sortBy sortOrder)
             (sort_by (comparison lc gt sortBy sortOrder) (filter ?keep docs))"
  proof (rule sorted_sort_by[where S = "set docs"])
    show "set (filter ?keep docs) \<subseteq> set docs" by auto
  next
    fix a b c
    assume "in_order lc gt sortBy sortOrder a b" "in_order lc gt sortBy sortOrder b c"
    then show "in_order lc gt sortBy sortOrder a c" by (rule in_order_trans[OF assms(1)])
  next
    fix a b
    assume ab: "a \<in> set docs" "b \<in> set docs"
    then have p: "sortBy = SortDate \<longrightarrow> gt (uploadDate a) \<noteq> None"
      "sortBy = SortDate \<longrightarrow> gt (uploadDate b) \<noteq> None" using assms(2) by blast+
    show "\<not> positive (comparison lc gt sortBy sortOrder a b) \<Longrightarrow> in_order lc gt sortBy sortOrder a b"
      by (rule comparison_decides(1)[OF assms(1) p])
    show "positive (comparison lc gt sortBy sortOrder a b) \<Longrightarrow> in_order lc gt sortBy sortOrder b a"
      by (rule comparison_decides(2)[OF assms(1) p])
  qed
  show ?thesis
    using m s by (simp add: same filteredDocuments_def)
qed

lemma char_of_eq_mod: "char_of (n::nat) = c \<longleftrightarrow> n mod 256 = of_char c"
  by (simp add: char_of_eq_iff take_bit_eq_mod)

lemma eq_char_of_mod: "c = char_of (n::nat) \<longleftrightarrow> n mod 256 = of_char c"
  using char_of_eq_mod[of n c] by auto

lemma codeUnitCompare_consistent: "consistent_comparator codeUnitCompare"
  by (auto simp: consistent_comparator_def codeUnitCompare_def)

lemma mockDocuments_dates:
  "SortDate = SortDate \<longrightarrow> (\<forall>d \<in> set mockDocuments. mockTime (uploadDate d) \<noteq> None)"
  by (simp add: mockDocuments_def mockTime_def)

lemma mockDocuments_matching_smith:
  "filter (matchesSearch ''smith'') mockDocuments = [mockDocuments ! 0, mockDocuments ! 1]"
  by (simp add: mockDocuments_def matchesSearch_def toLowerCase_def lower_char_def
      char_of_eq_mod eq_char_of_mod)

lemma mockDocuments_newest_first:
  "sort_by (comparison codeUnitCompare mockTime SortDate Desc) [mockDocuments ! 0, mockDocuments ! 1]
     = [mockDocuments ! 1, mockDocuments ! 0]"
  by (simp add: sort_by_def comparison_def mockTime_def mockDocuments_def positive_def)

text \<open>
  The scenario of the search term "smith" with the filter "all", in the list's initial
  order (date, descending): the evidence photo uploaded by Jane Smith, then the client
  agreement Smith v. Jones.
\<close>

lemma mockDocuments_smith:
  "filteredDocuments codeUnitCompare mockTime mockDocuments ''smith'' SortDate Desc ''all''
     = [mockDocuments ! 1, mockDocuments ! 0]"
proof -
  have "filter (\<lambda>doc. matchesSearch ''smith'' doc \<and> matchesType ''all'' doc) mockDocuments
          = filter (matchesSearch ''smith'') mockDocuments"
    by (simp add: matchesType_def)
  then show ?thesis
    by (simp only: filteredDocuments_def mockDocuments_matching_smith mockDocuments_newest_first)
qed

theorem filteredDocuments_filter_sort_witness:
  "consistent_comparator codeUnitCompare
   \<and> map (\<lambda>d. mockTime (uploadDate d)) mockDocuments
       = [Some 1728950400000, Some 1729382400000, Some 1729814400000, Some 1730073600000]
   \<and> filteredDocuments codeUnitCompare mockTime mockDocuments ''smith'' SortDate Desc ''all''
       = [mockDocuments ! 1, mockDocuments ! 0]
   \<and> mset [mockDocuments ! 1, mockDocuments ! 0]
       = mset (filter
                (\<lambda>d. (sublist (toLowerCase ''smith'') (toLowerCase (name d))
                       \<or> sublist (toLowerCase ''smith'') (toLowerCase (uploader d))
                       \<or> (\<exists>c. clientCase d = Some c
                              \<and> sublist (toLowerCase ''smith'') (toLowerCase c)))
                      \<and> (doc_type d = ''all'' \<or> ''all'' = ''all''))
                mockDocuments)
   \<and> sorted_wrt (in_order codeUnitCompare mockTime SortDate Desc)
       [mockDocuments ! 1, mockDocuments ! 0]"
proof -
  note r = filteredDocuments_filter_sort
    [OF codeUnitCompare_consistent mockDocuments_dates, of "''smith''" Desc "''all''",
     unfolded mockDocuments_smith]
  have t: "map (\<lambda>d. mockTime (uploadDate d)) mockDocuments
       = [Some 1728950400000, Some 1729382400000, Some 1729814400000, Some 1730073600000]"
    by (simp add: mockDocuments_def mockTime_def)
  show ?thesis
    using codeUnitCompare_consistent t mockDocuments_smith r by blast
qed

text \<open>
  C10. With an empty search term the derivation is the one with the type filter alone:
  every record passes the search test.
\<close>

theorem filteredDocuments_empty_search:
  "filteredDocuments lc gt docs [] sortBy sortOrder filterType
     = typeFilteredDocuments lc gt docs sortBy sortOrder filterType"
  by (simp add: filteredDocuments_def typeFilteredDocuments_def matchesSearch_def
      matchesType_def toLowerCase_def str_includes_empty)

end
